theory Spec2Isabelle
  imports Main "HOL-Library.Multiset"
begin

section \<open>Python values used by the flow log parser\<close>

subsection \<open>Exceptions\<close>

text \<open>
  Every exception class that \<open>flow_log_parser.py\<close> raises, catches or lets pass, with
  the text that \<open>str(e)\<close> gives. \<open>IOError\<close> is Python 3's alias of \<open>OSError\<close>, so
  \<open>raise IOError(...)\<close> is the constructor \<open>OSError\<close> here. A function that can raise
  returns \<open>exn + 'a\<close>, with \<open>Inl\<close> for the exception.
\<close>

datatype exn =
    OSError string
  | ValueError string
  | TypeError string
  | AttributeError string
  | KeyError string

fun exn_str :: "exn \<Rightarrow> string" where
  "exn_str (OSError m) = m"
| "exn_str (ValueError m) = m"
| "exn_str (TypeError m) = m"
| "exn_str (AttributeError m) = m"
| "exn_str (KeyError m) = m"

definition quoted :: "string \<Rightarrow> string" where
  "quoted s = [CHR 0x27] @ s @ [CHR 0x27]"

subsection \<open>Dictionaries\<close>

text \<open>
  A Python \<open>dict\<close> keeps its keys in insertion order and holds each key once. It is
  modelled as an association list: \<open>d[k] = v\<close> overwrites the value in place when
  \<open>k\<close> is present and appends \<open>(k, v)\<close> otherwise; \<open>k in d\<close> and \<open>d[k]\<close>
  read through \<open>map_of\<close>.
\<close>

type_synonym ('k, 'v) dict = "('k \<times> 'v) list"

fun dict_set :: "('k, 'v) dict \<Rightarrow> 'k \<Rightarrow> 'v \<Rightarrow> ('k, 'v) dict" where
  "dict_set [] k v = [(k, v)]"
| "dict_set ((k', v') # d) k v =
     (if k' = k then (k', v) # d else (k', v') # dict_set d k v)"

text \<open>
  Both aggregators count with the same three statements:
  \<^verbatim>\<open>if key not in d: d[key] = 0\<close> followed by \<^verbatim>\<open>d[key] += 1\<close>.
  The read inside \<open>+=\<close> would raise \<open>KeyError\<close> on a missing key; the key has just
  been entered, so that branch is never taken (lemma \<open>count_incr_present\<close>) and leaves
  the dictionary unchanged here.
\<close>

definition count_incr :: "('k, nat) dict \<Rightarrow> 'k \<Rightarrow> ('k, nat) dict" where
  "count_incr d k =
     (let d0 = (if map_of d k = None then dict_set d k 0 else d)
      in case map_of d0 k of
           Some c \<Rightarrow> dict_set d0 k (c + 1)
         | None \<Rightarrow> d0)"

subsection \<open>Strings\<close>

text \<open>
  A \<open>string\<close> is a list of 8-bit characters, read as the code points below 256 of a
  Python \<open>str\<close>. \<open>is_space\<close> is \<open>str.isspace\<close> on that range: tab to carriage
  return, the four separators 28 to 31, the space, NEL (133) and the no-break space
  (160). \<open>strip\<close> and \<open>split\<close> are \<open>str.strip()\<close> and \<open>str.split()\<close> without
  arguments: \<open>split\<close> cuts at every run of white space and yields no empty field.
  \<open>lower\<close> is \<open>str.lower()\<close> on the same range (the letters A to Z and the
  upper-case Latin-1 letters 192 to 222, the multiplication sign 215 excepted).
\<close>

definition is_space :: "char \<Rightarrow> bool" where
  "is_space c =
     (let n = (of_char c :: nat)
      in (9 \<le> n \<and> n \<le> 13) \<or> (28 \<le> n \<and> n \<le> 32) \<or> n = 133 \<or> n = 160)"

definition strip :: "string \<Rightarrow> string" where
  "strip s = rev (dropWhile is_space (rev (dropWhile is_space s)))"

fun split_from :: "string \<Rightarrow> string \<Rightarrow> string list" where
  "split_from cur [] = (if cur = [] then [] else [cur])"
| "split_from cur (c # cs) =
     (if is_space c
      then (if cur = [] then split_from [] cs else cur # split_from [] cs)
      else split_from (cur @ [c]) cs)"

definition split :: "string \<Rightarrow> string list" where
  "split s = split_from [] s"

definition lower_char :: "char \<Rightarrow> char" where
  "lower_char c =
     (let n = (of_char c :: nat)
      in if (65 \<le> n \<and> n \<le> 90) \<or> (192 \<le> n \<and> n \<le> 222 \<and> n \<noteq> 215)
         then char_of (n + 32) else c)"

definition lower :: "string \<Rightarrow> string" where
  "lower s = map lower_char s"

subsection \<open>Integers and their decimal text\<close>

text \<open>
  Python's integers are unbounded: \<open>int\<close>. \<open>str_int\<close> is \<open>str(n)\<close>, the decimal
  text without leading zeros and with a minus sign for a negative number. \<open>py_int\<close> is
  \<open>int(s)\<close> on a string: white space is stripped at both ends, one sign may lead, and
  the digits may be separated by single underscores; anything else raises
  \<open>ValueError\<close>, which is \<open>None\<close> here. CPython's configurable limit on the length of
  a decimal literal (4300 digits by default since 3.11) is not part of the model.
\<close>

definition digit_char :: "nat \<Rightarrow> char" where
  "digit_char d = char_of (48 + d)"

fun str_nat :: "nat \<Rightarrow> string" where
  "str_nat n =
     (if n < 10 then [digit_char n] else str_nat (n div 10) @ [digit_char (n mod 10)])"

declare str_nat.simps [simp del]

definition str_int :: "int \<Rightarrow> string" where
  "str_int i = (if i < 0 then CHR ''-'' # str_nat (nat (- i)) else str_nat (nat i))"

definition is_digit :: "char \<Rightarrow> bool" where
  "is_digit c = (let n = (of_char c :: nat) in 48 \<le> n \<and> n \<le> 57)"

definition digit_val :: "char \<Rightarrow> nat" where
  "digit_val c = of_char c - 48"

fun int_digits :: "nat \<Rightarrow> string \<Rightarrow> nat option" where
  "int_digits acc [] = Some acc"
| "int_digits acc [c] = (if is_digit c then Some (acc * 10 + digit_val c) else None)"
| "int_digits acc (c # d # ds) =
     (if is_digit c then int_digits (acc * 10 + digit_val c) (d # ds)
      else if c = CHR ''_'' \<and> is_digit d then int_digits (acc * 10 + digit_val d) ds
      else None)"

definition int_literal :: "string \<Rightarrow> nat option" where
  "int_literal s =
     (case s of
        [] \<Rightarrow> None
      | c # cs \<Rightarrow> if is_digit c then int_digits (digit_val c) cs else None)"

definition py_int :: "string \<Rightarrow> int option" where
  "py_int s =
     (case strip s of
        [] \<Rightarrow> None
      | c # cs \<Rightarrow>
          if c = CHR ''-'' then map_option (\<lambda>n. - int n) (int_literal cs)
          else if c = CHR ''+'' then map_option int (int_literal cs)
          else map_option int (int_literal (c # cs)))"

section \<open>The host's protocol tables\<close>

text \<open>
  The parser reads two tables of the host that are not part of the repository, so both
  are parameters of the model. \<open>protocols_db\<close> is the protocol database that
  \<open>socket.getprotobyname\<close> consults (every name and alias with its number);
  \<open>socket_vars\<close> is \<open>vars(socket).items()\<close>, the names of the \<open>socket\<close> module
  in order with their values. Only the names that start with \<open>IPPROTO_\<close> are read, and
  those are integers.

  \<open>getprotobyname\<close> raises \<open>OSError\<close> for a name that the database does not hold;
  its argument parsing rejects a string with an embedded NUL character first, with
  \<open>ValueError\<close>.
\<close>

type_synonym protocols_db = "(string \<times> int) list"
type_synonym socket_vars = "(string \<times> int) list"

definition getprotobyname :: "protocols_db \<Rightarrow> string \<Rightarrow> exn + int" where
  "getprotobyname db name =
     (if CHR 0x00 \<in> set name then Inl (ValueError ''embedded null character'')
      else case map_of db name of
             None \<Rightarrow> Inl (OSError ''protocol not found'')
           | Some n \<Rightarrow> Inr n)"

text \<open>
  Modelled from the spec: the host's protocol registry is not in the repository. These
  two tables hold the three assignments the spec names (ICMP = 1, TCP = 6, UDP = 17),
  and one constant of another family that the prefix test passes over. They are the
  concrete registry of the examples below; the theorems hold for every registry.
\<close>

definition spec_protocols :: protocols_db where
  "spec_protocols = [(''ICMP'', 1), (''TCP'', 6), (''UDP'', 17)]"

definition spec_socket_vars :: socket_vars where
  "spec_socket_vars =
     [(''AF_INET'', 2), (''IPPROTO_ICMP'', 1), (''IPPROTO_TCP'', 6), (''IPPROTO_UDP'', 17)]"

section \<open>ProtocolResolver\<close>

text \<open>
  \<open>get_protocol_number\<close>, lines 11 to 24: the number as a string; an \<open>OSError\<close> of
  the lookup is re-raised as \<open>ValueError\<close>, any other exception passes unchanged.
\<close>

definition get_protocol_number :: "protocols_db \<Rightarrow> string \<Rightarrow> exn + string" where
  "get_protocol_number db protocol_name =
     (case getprotobyname db protocol_name of
        Inr protocol_num \<Rightarrow> Inr (str_int protocol_num)
      | Inl (OSError m) \<Rightarrow>
          Inl (ValueError (''Invalid protocol name: '' @ protocol_name @ ''.''))
      | Inl e \<Rightarrow> Inl e)"

text \<open>
  \<open>get_protocol_name\<close>, lines 108 to 119: \<open>name_table\<close> is the loop that fills
  \<open>table\<close> from the module's names, a later name overwriting an earlier one with the
  same number; the result is \<open>table.get\<close> with the placeholder as default.
\<close>

definition prefix :: string where
  "prefix = ''IPPROTO_''"

fun name_table :: "socket_vars \<Rightarrow> (int, string) dict \<Rightarrow> (int, string) dict" where
  "name_table [] table = table"
| "name_table ((name, num) # rest) table =
     (if take (length prefix) name = prefix
      then name_table rest (dict_set table num (drop (length prefix) name))
      else name_table rest table)"

definition get_protocol_name :: "socket_vars \<Rightarrow> int \<Rightarrow> string" where
  "get_protocol_name vars protocol_num =
     (case map_of (name_table vars []) protocol_num of
        Some name \<Rightarrow> name
      | None \<Rightarrow> ''Unknown Protocol ('' @ str_int protocol_num @ '')'')"

text \<open>
  A number \<open>N\<close> is well known with canonical name \<open>P\<close> when the database resolves
  \<open>P\<close> to \<open>N\<close> and \<open>IPPROTO_P\<close> is the one constant of the module with the value
  \<open>N\<close>. A number is recognized when some \<open>IPPROTO_\<close> constant has it as value.
\<close>

definition well_known :: "protocols_db \<Rightarrow> socket_vars \<Rightarrow> string \<Rightarrow> int \<Rightarrow> bool" where
  "well_known db vars P N =
     (getprotobyname db P = Inr N \<and> (prefix @ P, N) \<in> set vars \<and>
      list_all (\<lambda>(name, num). take (length prefix) name = prefix \<and> num = N
                   \<longrightarrow> name = prefix @ P) vars)"

definition recognized :: "socket_vars \<Rightarrow> int \<Rightarrow> bool" where
  "recognized vars N =
     list_ex (\<lambda>(name, num). take (length prefix) name = prefix \<and> num = N) vars"

section \<open>Input sources\<close>

text \<open>
  A file handed to one of the two loaders either cannot be opened, or is opened and
  iterated: the iteration yields its items in order and then ends, or raises (a decoding
  error, a failing device) after the items read so far.
\<close>

datatype 'a source = OpenFails exn | Opened "'a list" "exn option"

section \<open>LookupTable\<close>

text \<open>
  \<open>csv.DictReader\<close> yields one dictionary per row, from the column names of the
  header to the cells. A cell is a string; a row shorter than the header has \<open>None\<close>
  in the missing cells; a column that the header lacks is absent from every row.

  \<open>row_entry\<close> is the body of the inner \<open>try\<close>, lines 39 and 40:
  \<open>row['dstport']\<close>, then \<open>row['protocol']\<close> handed to \<open>get_protocol_number\<close>
  (\<open>getprotobyname(None)\<close> is a \<open>TypeError\<close>), then \<open>row['tag'].lower()\<close>
  (\<open>None.lower()\<close> is an \<open>AttributeError\<close>), then the store.
  \<open>lookup_loop\<close> is the \<open>for\<close> loop: the inner \<open>except\<close> takes a
  \<open>ValueError\<close>, prints and continues; every other exception leaves the loop.
  \<open>load_lookup_table\<close>, lines 26 to 45, wraps what leaves the outer \<open>try\<close> in
  \<open>IOError\<close>. The first component of the result is what was printed.
\<close>

datatype pyval = PyNone | PyStr string

type_synonym csv_row = "string \<rightharpoonup> pyval"
type_synonym lookup_key = "pyval \<times> string"

definition row_entry :: "protocols_db \<Rightarrow> csv_row \<Rightarrow> exn + (lookup_key \<times> string)" where
  "row_entry db row =
     (case row ''dstport'' of
        None \<Rightarrow> Inl (KeyError (quoted ''dstport''))
      | Some dstport \<Rightarrow>
     (case row ''protocol'' of
        None \<Rightarrow> Inl (KeyError (quoted ''protocol''))
      | Some PyNone \<Rightarrow> Inl (TypeError ''getprotobyname() argument 1 must be str, not None'')
      | Some (PyStr protocol) \<Rightarrow>
     (case get_protocol_number db protocol of
        Inl e \<Rightarrow> Inl e
      | Inr num \<Rightarrow>
     (case row ''tag'' of
        None \<Rightarrow> Inl (KeyError (quoted ''tag''))
      | Some PyNone \<Rightarrow>
          Inl (AttributeError
                (quoted ''NoneType'' @ '' object has no attribute '' @ quoted ''lower''))
      | Some (PyStr tag) \<Rightarrow> Inr ((dstport, num), lower tag)))))"

fun lookup_loop ::
  "protocols_db \<Rightarrow> csv_row list \<Rightarrow> exn option \<Rightarrow> (lookup_key, string) dict \<Rightarrow> string list
     \<Rightarrow> string list \<times> (exn + (lookup_key, string) dict)" where
  "lookup_loop db [] fin lookup out =
     (case fin of None \<Rightarrow> (out, Inr lookup) | Some e \<Rightarrow> (out, Inl e))"
| "lookup_loop db (row # rows) fin lookup out =
     (case row_entry db row of
        Inr (key, tag) \<Rightarrow> lookup_loop db rows fin (dict_set lookup key tag) out
      | Inl (ValueError m) \<Rightarrow>
          lookup_loop db rows fin lookup
            (out @ [''Skipping invalid entry in lookup table: '' @ m])
      | Inl e \<Rightarrow> (out, Inl e))"

definition load_lookup_table ::
  "protocols_db \<Rightarrow> csv_row source \<Rightarrow> string list \<times> (exn + (lookup_key, string) dict)" where
  "load_lookup_table db src =
     (case (case src of
              OpenFails e \<Rightarrow> ([], Inl e)
            | Opened rows fin \<Rightarrow> lookup_loop db rows fin [] []) of
        (out, Inl e) \<Rightarrow>
          (out, Inl (OSError (''Failed to read the lookup table file: '' @ exn_str e)))
      | (out, Inr lookup) \<Rightarrow> (out, Inr lookup))"

text \<open>
  A lookup source as the spec describes it is a sequence of string triples
  (dstport, protocol, tag). \<open>is_row row (d, p, t)\<close> says that the reader's row carries
  that triple; \<open>csv_row3\<close> is the row with exactly those three cells, and
  \<open>short_row\<close> is the row of the line \<^verbatim>\<open>80,TCP\<close> under the header
  \<^verbatim>\<open>dstport,protocol,tag\<close>. \<open>skip_message\<close> is the line printed for a
  triple whose protocol name does not resolve.
\<close>

definition is_row :: "csv_row \<Rightarrow> string \<times> string \<times> string \<Rightarrow> bool" where
  "is_row row triple =
     (case triple of (d, p, t) \<Rightarrow>
        row ''dstport'' = Some (PyStr d) \<and> row ''protocol'' = Some (PyStr p) \<and>
        row ''tag'' = Some (PyStr t))"

definition csv_row3 :: "string \<Rightarrow> string \<Rightarrow> string \<Rightarrow> csv_row" where
  "csv_row3 d p t = [''dstport'' \<mapsto> PyStr d, ''protocol'' \<mapsto> PyStr p, ''tag'' \<mapsto> PyStr t]"

definition short_row :: csv_row where
  "short_row =
     [''dstport'' \<mapsto> PyStr ''80'', ''protocol'' \<mapsto> PyStr ''TCP'', ''tag'' \<mapsto> PyNone]"

definition skip_message :: "protocols_db \<Rightarrow> string \<times> string \<times> string \<Rightarrow> string" where
  "skip_message db triple =
     (case triple of (d, p, t) \<Rightarrow>
        ''Skipping invalid entry in lookup table: '' @
        (case get_protocol_number db p of Inl e \<Rightarrow> exn_str e | Inr n \<Rightarrow> []))"

text \<open>
  For the proofs: the entries that the rows of a source store, in order, and the
  dictionary after storing a list of entries one by one.
\<close>

definition entries :: "protocols_db \<Rightarrow> csv_row list \<Rightarrow> (lookup_key \<times> string) list" where
  "entries db rows =
     concat (map (\<lambda>row. case row_entry db row of Inr e \<Rightarrow> [e] | Inl _ \<Rightarrow> []) rows)"

definition set_all ::
  "(lookup_key \<times> string) list \<Rightarrow> (lookup_key, string) dict \<Rightarrow> (lookup_key, string) dict" where
  "set_all es d = fold (\<lambda>(k, v) d. dict_set d k v) es d"

section \<open>FlowRecordParser\<close>

text \<open>
  \<open>load_dstport_protocol_flow_logs\<close>, lines 47 to 67. \<open>flow_loop\<close> is the loop
  over the lines of the file: a line with at least 8 fields appends
  \<open>(fields[6], fields[7])\<close>, any other line prints a message. The first component of
  the result is what was printed.
\<close>

fun flow_loop ::
  "string list \<Rightarrow> exn option \<Rightarrow> (string \<times> string) list \<Rightarrow> string list
     \<Rightarrow> string list \<times> (exn + (string \<times> string) list)" where
  "flow_loop [] fin dstport_proto out =
     (case fin of None \<Rightarrow> (out, Inr dstport_proto) | Some e \<Rightarrow> (out, Inl e))"
| "flow_loop (line # lines) fin dstport_proto out =
     (let fields = split line
      in if length fields \<ge> 8
         then flow_loop lines fin (dstport_proto @ [(fields ! 6, fields ! 7)]) out
         else flow_loop lines fin dstport_proto
                (out @ [''Skipping incomplete line: '' @ strip line]))"

definition load_dstport_protocol_flow_logs ::
  "string source \<Rightarrow> string list \<times> (exn + (string \<times> string) list)" where
  "load_dstport_protocol_flow_logs src =
     (case (case src of
              OpenFails e \<Rightarrow> ([], Inl e)
            | Opened lines fin \<Rightarrow> flow_loop lines fin [] []) of
        (out, Inl e) \<Rightarrow>
          (out, Inl (OSError (''Failed to read the flow log file: '' @ exn_str e)))
      | (out, Inr dstport_proto) \<Rightarrow> (out, Inr dstport_proto))"

section \<open>Aggregator\<close>

text \<open>
  \<open>map_port_proto_tag\<close>, lines 69 to 86. The loop body is \<open>tag_step\<close>: the tag is
  the table's value for the record, or \<open>untagged\<close>, and its counter is incremented.
  The function compares a record with the table's keys by equality only, so the type of
  the keys is left open.
\<close>

definition tag_of :: "('k, string) dict \<Rightarrow> 'k \<Rightarrow> string" where
  "tag_of lookup key =
     (case map_of lookup key of Some t \<Rightarrow> t | None \<Rightarrow> ''untagged'')"

definition tag_step :: "('k, string) dict \<Rightarrow> (string, nat) dict \<Rightarrow> 'k \<Rightarrow> (string, nat) dict" where
  "tag_step lookup tag_count_dict key = count_incr tag_count_dict (tag_of lookup key)"

fun tag_loop :: "('k, string) dict \<Rightarrow> 'k list \<Rightarrow> (string, nat) dict \<Rightarrow> (string, nat) dict" where
  "tag_loop lookup [] tag_count_dict = tag_count_dict"
| "tag_loop lookup (key # rest) tag_count_dict =
     tag_loop lookup rest (tag_step lookup tag_count_dict key)"

definition map_port_proto_tag :: "('k, string) dict \<Rightarrow> 'k list \<Rightarrow> (string, nat) dict" where
  "map_port_proto_tag lookup dstport_proto = tag_loop lookup dstport_proto []"

text \<open>
  \<open>get_port_protocol_counts\<close>, lines 121 to 135. \<open>int(protocol)\<close> raises
  \<open>ValueError\<close> on a string that is no integer literal, and nothing catches it inside
  the function. Python shows the literal by its \<open>repr\<close> in the message; the model
  puts it between plain quotes.
\<close>

fun port_proto_loop ::
  "socket_vars \<Rightarrow> (string \<times> string) list \<Rightarrow> (string \<times> string, nat) dict
     \<Rightarrow> exn + (string \<times> string, nat) dict" where
  "port_proto_loop vars [] port_proto_dict = Inr port_proto_dict"
| "port_proto_loop vars ((port, protocol) # rest) port_proto_dict =
     (case py_int protocol of
        None \<Rightarrow>
          Inl (ValueError (''invalid literal for int() with base 10: '' @ quoted protocol))
      | Some n \<Rightarrow>
          (let protocol_name = get_protocol_name vars n
           in port_proto_loop vars rest (count_incr port_proto_dict (port, protocol_name))))"

definition get_port_protocol_counts ::
  "socket_vars \<Rightarrow> (string \<times> string) list \<Rightarrow> exn + (string \<times> string, nat) dict" where
  "get_port_protocol_counts vars port_protocol = port_proto_loop vars port_protocol []"

text \<open>For the proofs: the entries that \<open>name_table\<close> stores, in order.\<close>

definition proto_entries :: "socket_vars \<Rightarrow> (int \<times> string) list" where
  "proto_entries vars =
     map (\<lambda>(name, num). (num, drop (length prefix) name))
       (filter (\<lambda>(name, num). take (length prefix) name = prefix) vars)"

section \<open>Facts about dictionaries\<close>

lemma map_of_dict_set: "map_of (dict_set d k v) = (map_of d)(k \<mapsto> v)"
  by (induction d k v rule: dict_set.induct) (auto simp: fun_eq_iff)

lemma keys_dict_set_present:
  "map_of d k \<noteq> None \<Longrightarrow> map fst (dict_set d k v) = map fst d"
  by (induction d k v rule: dict_set.induct) auto

lemma keys_dict_set_absent:
  "map_of d k = None \<Longrightarrow> map fst (dict_set d k v) = map fst d @ [k]"
  by (induction d k v rule: dict_set.induct) (auto split: if_splits)

lemma sum_dict_set_absent:
  "map_of d k = None \<Longrightarrow>
   sum_list (map snd (dict_set d k v)) = sum_list (map snd d) + (v::nat)"
  by (induction d k v rule: dict_set.induct) (auto split: if_splits)

lemma sum_dict_set_present:
  "map_of d k = Some c \<Longrightarrow>
   sum_list (map snd (dict_set d k v)) + c = sum_list (map snd d) + (v::nat)"
  by (induction d k v rule: dict_set.induct) (auto split: if_splits)

section \<open>Counting by tag: totals\<close>

lemma count_incr_present: "map_of (count_incr d tag) tag \<noteq> None"
  by (auto simp: count_incr_def Let_def map_of_dict_set split: option.splits)

lemma map_of_count_incr:
  "map_of (count_incr d tag) =
     (map_of d)(tag \<mapsto> (case map_of d tag of None \<Rightarrow> 1 | Some c \<Rightarrow> c + 1))"
  by (auto simp: count_incr_def Let_def map_of_dict_set fun_eq_iff split: option.splits)

lemma sum_count_incr:
  "sum_list (map snd (count_incr d tag)) = sum_list (map snd d) + 1"
proof (cases "map_of d tag")
  case None
  have a: "map_of (dict_set d tag 0) tag = Some 0"
    by (simp add: map_of_dict_set)
  have "sum_list (map snd (dict_set (dict_set d tag 0) tag (0 + 1))) + 0
        = sum_list (map snd (dict_set d tag 0)) + (0 + 1)"
    by (rule sum_dict_set_present [OF a])
  with None a show ?thesis
    by (simp add: count_incr_def sum_dict_set_absent)
next
  case (Some c)
  from sum_dict_set_present [OF Some, of "c + 1"] Some show ?thesis
    by (simp add: count_incr_def)
qed

lemma sum_tag_loop:
  "sum_list (map snd (tag_loop lookup recs d)) = sum_list (map snd d) + length recs"
  by (induction recs arbitrary: d) (simp_all add: tag_step_def sum_count_incr)

text \<open>
  Claim C1. For every lookup table and every list of flow records, the counts in the
  dictionary returned by \<open>map_port_proto_tag\<close> add up to the number of records,
  whatever share of the records the table matches.
\<close>

theorem C1_tag_counts_sum_to_length:
  "sum_list (map snd (map_port_proto_tag lookup dstport_proto)) = length dstport_proto"
  by (simp add: map_port_proto_tag_def sum_tag_loop)

section \<open>Counting by tag: independence of the record order\<close>

lemma map_of_tag_loop:
  "map_of (tag_loop lookup recs d) tag =
     (let c = length (filter (\<lambda>k. tag_of lookup k = tag) recs)
      in if c = 0 then map_of d tag
         else Some (c + (case map_of d tag of None \<Rightarrow> 0 | Some n \<Rightarrow> n)))"
proof (induction recs arbitrary: d)
  case Nil
  show ?case by simp
next
  case (Cons key rest)
  show ?case
    by (simp add: Cons.IH tag_step_def map_of_count_incr Let_def split: option.splits)
qed

lemma count_tag_perm:
  assumes "mset xs = mset ys"
  shows "length (filter P xs) = length (filter P ys)"
proof -
  have "size (filter_mset P (mset xs)) = size (filter_mset P (mset ys))"
    using assms by simp
  then show ?thesis by (simp only: mset_filter [symmetric] size_mset)
qed

lemma keys_count_incr:
  "map fst (count_incr d tag) =
     (if map_of d tag = None then map fst d @ [tag] else map fst d)"
  by (auto simp: count_incr_def Let_def map_of_dict_set keys_dict_set_absent
      keys_dict_set_present split: option.splits)

text \<open>
  Claim C8. For every lookup table and every two record lists that are permutations of
  each other (equal as multisets), \<open>map_port_proto_tag\<close> gives every tag the same
  count: the tag is absent from both results or carries the same number in both.
\<close>

theorem C8_tag_counts_permutation:
  "mset recs1 = mset recs2 \<Longrightarrow>
   map_of (map_port_proto_tag lookup recs1) tag =
   map_of (map_port_proto_tag lookup recs2) tag"
  by (simp add: map_port_proto_tag_def map_of_tag_loop count_tag_perm [of recs1 recs2])

theorem C8_tag_counts_permutation_witness:
  "mset [(''80'', ''6''), (''25'', ''6''), (''80'', ''6'')]
     = mset [(''80'', ''6''), (''80'', ''6''), (''25'', ''6'')]
   \<and> map_of (map_port_proto_tag [((''80'', ''6''), ''http'')]
         [(''80'', ''6''), (''25'', ''6''), (''80'', ''6'')]) ''http''
     = map_of (map_port_proto_tag [((''80'', ''6''), ''http'')]
         [(''80'', ''6''), (''80'', ''6''), (''25'', ''6'')]) ''http''"
proof -
  have h: "mset [(''80'', ''6''), (''25'', ''6''), (''80'', ''6'')]
     = mset [(''80'', ''6''), (''80'', ''6''), (''25'', ''6'')]"
    by simp
  from h C8_tag_counts_permutation [OF h, of "[((''80'', ''6''), ''http'')]" "''http''"]
  show ?thesis by (rule conjI)
qed

section \<open>Decimal text of integers\<close>

lemma digit_char_simps:
  "digit_char 0 = CHR ''0''" "digit_char 1 = CHR ''1''" "digit_char 2 = CHR ''2''"
  "digit_char 3 = CHR ''3''" "digit_char 4 = CHR ''4''" "digit_char 5 = CHR ''5''"
  "digit_char 6 = CHR ''6''" "digit_char 7 = CHR ''7''" "digit_char 8 = CHR ''8''"
  "digit_char 9 = CHR ''9''"
  by code_simp+










lemma str_int_6: "str_int 6 = ''6''"
  by code_simp

lemma str_int_999: "str_int 999 = ''999''"
  by code_simp






section \<open>ProtocolResolver: names and numbers\<close>

lemma map_of_name_table:
  "map_of (name_table vars table) = map_of table ++ map_of (rev (proto_entries vars))"
proof (induction vars arbitrary: table)
  case Nil
  show ?case by (simp add: proto_entries_def)
next
  case (Cons v vars)
  obtain name num where v: "v = (name, num)" by (cases v)
  show ?case
  proof (cases "take (length prefix) name = prefix")
    case True
    then show ?thesis
      by (simp add: v Cons.IH map_of_dict_set proto_entries_def fun_eq_iff map_add_def
          split: option.splits)
  next
    case False
    then show ?thesis
      by (simp add: v Cons.IH proto_entries_def)
  qed
qed

lemma map_of_unique_value:
  assumes "(k, v) \<in> set xs" and "\<And>v'. (k, v') \<in> set xs \<Longrightarrow> v' = v"
  shows "map_of xs k = Some v"
proof -
  from assms(1) obtain w where w: "map_of xs k = Some w"
    using weak_map_of_SomeI by fastforce
  then have "(k, w) \<in> set xs" by (rule map_of_SomeD)
  with assms(2) w show ?thesis by simp
qed

lemma get_protocol_name_known:
  assumes "(prefix @ P, N) \<in> set vars"
    and "list_all (\<lambda>(name, num). take (length prefix) name = prefix \<and> num = N
                   \<longrightarrow> name = prefix @ P) vars"
  shows "get_protocol_name vars N = P"
proof -
  have a: "(N, P) \<in> set (rev (proto_entries vars))"
    using assms(1) by (force simp: proto_entries_def)
  have b: "\<And>v'. (N, v') \<in> set (rev (proto_entries vars)) \<Longrightarrow> v' = P"
    using assms(2) by (auto simp: proto_entries_def list_all_iff)
  from map_of_unique_value [OF a b] show ?thesis
    by (simp add: get_protocol_name_def map_of_name_table)
qed

lemma get_protocol_name_unknown:
  assumes "\<not> recognized vars N"
  shows "get_protocol_name vars N = ''Unknown Protocol ('' @ str_int N @ '')''"
proof -
  have "N \<notin> fst ` set (rev (proto_entries vars))"
    using assms by (force simp: proto_entries_def recognized_def list_ex_iff)
  then have "map_of (rev (proto_entries vars)) N = None"
    by (simp add: map_of_eq_None_iff)
  then show ?thesis
    by (simp add: get_protocol_name_def map_of_name_table)
qed

lemma get_protocol_number_known:
  "getprotobyname db P = Inr N \<Longrightarrow> get_protocol_number db P = Inr (str_int N)"
  by (simp add: get_protocol_number_def)

lemma tcp_number: "get_protocol_number spec_protocols ''TCP'' = Inr ''6''"
  by (simp add: get_protocol_number_def getprotobyname_def spec_protocols_def str_int_6)

lemma bogus_number:
  "get_protocol_number spec_protocols ''bogus''
     = Inl (ValueError ''Invalid protocol name: bogus.'')"
  by (simp add: get_protocol_number_def getprotobyname_def spec_protocols_def)

lemma unrecognized_999: "\<not> recognized spec_socket_vars 999"
  by (simp add: recognized_def spec_socket_vars_def prefix_def)


text \<open>
  Claim C3. For every well-known protocol number \<open>N\<close> with canonical name \<open>P\<close>,
  \<open>get_protocol_name\<close> of \<open>N\<close> is \<open>P\<close> and \<open>get_protocol_number\<close> of \<open>P\<close>
  is the decimal text of \<open>N\<close>; for every number \<open>M\<close> that no \<open>IPPROTO_\<close>
  constant carries, \<open>get_protocol_name\<close> returns exactly
  \<open>Unknown Protocol (M)\<close> and does not fail.
\<close>

theorem C3_resolver_round_trip:
  "(well_known db vars P N \<longrightarrow>
      get_protocol_name vars N = P \<and> get_protocol_number db P = Inr (str_int N))
   \<and> (\<not> recognized vars M \<longrightarrow>
      get_protocol_name vars M = ''Unknown Protocol ('' @ str_int M @ '')'')"
  by (simp add: well_known_def get_protocol_name_known get_protocol_number_known
      get_protocol_name_unknown)

theorem C3_resolver_round_trip_witness:
  "well_known spec_protocols spec_socket_vars ''TCP'' 6
   \<and> \<not> recognized spec_socket_vars 999
   \<and> get_protocol_name spec_socket_vars 6 = ''TCP''
   \<and> get_protocol_number spec_protocols ''TCP'' = Inr ''6''
   \<and> get_protocol_name spec_socket_vars 999 = ''Unknown Protocol (999)''"
proof -
  have w: "well_known spec_protocols spec_socket_vars ''TCP'' 6"
    by (simp add: well_known_def spec_protocols_def spec_socket_vars_def
        getprotobyname_def prefix_def)
  from w unrecognized_999
    C3_resolver_round_trip [of spec_protocols spec_socket_vars "''TCP''" 6 999]
  show ?thesis
    by (simp add: str_int_6 str_int_999)
qed

text \<open>
  Claim C4. For every protocol name that the protocol database does not hold,
  \<open>get_protocol_number\<close> raises \<open>ValueError\<close> and returns no value; for a name
  without a NUL character the message is \<open>Invalid protocol name: <name>.\<close> The
  function has no effect besides its result: it is a function of the database and the
  name alone, and it prints and stores nothing.
\<close>

theorem C4_unknown_name_raises_ValueError:
  "map_of db name = None \<Longrightarrow>
     (\<exists>msg. get_protocol_number db name = Inl (ValueError msg)) \<and>
     (CHR 0x00 \<notin> set name \<longrightarrow>
        get_protocol_number db name
          = Inl (ValueError (''Invalid protocol name: '' @ name @ ''.'')))"
  by (simp add: get_protocol_number_def getprotobyname_def)

theorem C4_unknown_name_raises_ValueError_witness:
  "map_of spec_protocols ''INVALID_PROTOCOL'' = None
   \<and> get_protocol_number spec_protocols ''INVALID_PROTOCOL''
       = Inl (ValueError ''Invalid protocol name: INVALID_PROTOCOL.'')"
proof -
  have h: "map_of spec_protocols ''INVALID_PROTOCOL'' = None"
    by (simp add: spec_protocols_def)
  from h C4_unknown_name_raises_ValueError [OF h] show ?thesis by simp
qed

section \<open>FlowRecordParser: which lines become records\<close>

lemma flow_loop_eq:
  "flow_loop lines fin acc out =
     (out @ map (\<lambda>l. ''Skipping incomplete line: '' @ strip l)
              (filter (\<lambda>l. \<not> 8 \<le> length (split l)) lines),
      case fin of
        None \<Rightarrow> Inr (acc @ map (\<lambda>l. (split l ! 6, split l ! 7))
                           (filter (\<lambda>l. 8 \<le> length (split l)) lines))
      | Some e \<Rightarrow> Inl e)"
  by (induction lines arbitrary: acc out) (simp_all add: Let_def split: option.splits)

text \<open>
  Claim C2. For every sequence of input lines that is read to its end, a line whose
  split on white space has fewer than 8 fields adds no record (and prints one message),
  a line with 8 fields or more adds the pair of its 7th and 8th field, and the records
  come in the order of their lines.
\<close>

theorem C2_lines_to_records:
  "load_dstport_protocol_flow_logs (Opened lines None) =
     (map (\<lambda>l. ''Skipping incomplete line: '' @ strip l)
        (filter (\<lambda>l. length (split l) < 8) lines),
      Inr (map (\<lambda>l. (split l ! 6, split l ! 7))
        (filter (\<lambda>l. 8 \<le> length (split l)) lines)))"
  by (simp add: load_dstport_protocol_flow_logs_def flow_loop_eq not_le)

section \<open>Aggregator: counting by port and protocol name\<close>






lemma port_proto_loop_error:
  "port_proto_loop vars recs d = Inl e \<Longrightarrow>
     \<exists>q. q \<in> snd ` set recs \<and> py_int q = None \<and>
       e = ValueError (''invalid literal for int() with base 10: '' @ quoted q)"
proof (induction recs arbitrary: d)
  case Nil
  then show ?case by simp
next
  case (Cons r recs)
  obtain p q where r: "r = (p, q)" by (cases r)
  show ?case
  proof (cases "py_int q")
    case None
    with Cons.prems show ?thesis by (auto simp: r)
  next
    case (Some n)
    with Cons.prems Cons.IH [of "count_incr d (p, get_protocol_name vars n)"] show ?thesis
      by (auto simp: r Let_def)
  qed
qed




section \<open>LookupTable: loading\<close>

lemma get_protocol_number_cases:
  "(\<exists>n. get_protocol_number db p = Inr n) \<or> (\<exists>m. get_protocol_number db p = Inl (ValueError m))"
  by (simp add: get_protocol_number_def getprotobyname_def split: option.splits)

lemma row_entry_is_row:
  assumes "is_row row (d, p, t)"
  shows "row_entry db row =
     (case get_protocol_number db p of
        Inl e \<Rightarrow> Inl e
      | Inr n \<Rightarrow> Inr ((PyStr d, n), lower t))"
  using assms by (simp add: is_row_def row_entry_def split: sum.splits)

lemma map_of_set_all: "map_of (set_all es d) = map_of d ++ map_of (rev es)"
proof (induction es arbitrary: d)
  case Nil
  show ?case by (simp add: set_all_def)
next
  case (Cons e es)
  obtain k v where e: "e = (k, v)" by (cases e)
  have "set_all (e # es) d = set_all es (dict_set d k v)"
    by (simp add: set_all_def e)
  then show ?case
    by (simp add: Cons.IH map_of_dict_set e fun_eq_iff map_add_def split: option.splits)
qed

lemma keys_set_all: "fst ` set (set_all es d) = fst ` set d \<union> fst ` set es"
proof -
  have "dom (map_of (set_all es d)) = dom (map_of d) \<union> dom (map_of (rev es))"
    by (simp add: map_of_set_all Un_commute)
  then show ?thesis by (simp add: dom_map_of_conv_image_fst)
qed

lemma lookup_loop_returns:
  assumes "lookup_loop db rows fin lookup out = (out', Inr tbl)"
  shows "tbl = set_all (entries db rows) lookup"
  using assms
proof (induction rows arbitrary: lookup out)
  case Nil
  then show ?case by (simp add: entries_def set_all_def split: option.splits)
next
  case (Cons row rows)
  show ?case
  proof (cases "row_entry db row")
    case (Inr e)
    obtain k v where e: "e = (k, v)" by (cases e)
    from Cons.prems Inr e
    have "lookup_loop db rows fin (dict_set lookup k v) out = (out', Inr tbl)" by simp
    from Cons.IH [OF this] Inr e show ?thesis
      by (simp add: entries_def set_all_def)
  next
    case (Inl x)
    show ?thesis
    proof (cases x)
      case (ValueError m)
      with Cons.prems Inl
      have "lookup_loop db rows fin lookup
              (out @ [''Skipping invalid entry in lookup table: '' @ m]) = (out', Inr tbl)"
        by simp
      from Cons.IH [OF this] Inl show ?thesis
        by (simp add: entries_def set_all_def)
    qed (use Cons.prems Inl in simp_all)
  qed
qed

lemma lookup_loop_triples:
  assumes "list_all2 is_row rows triples"
  shows "lookup_loop db rows None lookup out =
     (out @ map (skip_message db) (filter (\<lambda>(d, p, t). isl (get_protocol_number db p)) triples),
      Inr (set_all (entries db rows) lookup))"
  using assms
proof (induction rows triples arbitrary: lookup out rule: list_all2_induct)
  case Nil
  show ?case by (simp add: entries_def set_all_def)
next
  case (Cons row rows triple triples)
  obtain d p t where tr: "triple = (d, p, t)" by (cases triple)
  from Cons.hyps(1) have re: "row_entry db row =
     (case get_protocol_number db p of
        Inl e \<Rightarrow> Inl e
      | Inr n \<Rightarrow> Inr ((PyStr d, n), lower t))"
    by (simp add: tr row_entry_is_row)
  from get_protocol_number_cases [of db p] show ?case
  proof
    assume "\<exists>n. get_protocol_number db p = Inr n"
    then obtain n where n: "get_protocol_number db p = Inr n" ..
    then show ?thesis
      by (simp add: re tr Cons.IH entries_def set_all_def)
  next
    assume "\<exists>m. get_protocol_number db p = Inl (ValueError m)"
    then obtain m where m: "get_protocol_number db p = Inl (ValueError m)" ..
    then show ?thesis
      by (simp add: re tr Cons.IH entries_def set_all_def skip_message_def)
  qed
qed

lemma entries_triples:
  assumes "list_all2 is_row rows triples"
  shows "set (entries db rows) =
     {((PyStr d, n), lower t) | d p t n. (d, p, t) \<in> set triples \<and> get_protocol_number db p = Inr n}"
  using assms
proof (induction rows triples rule: list_all2_induct)
  case Nil
  show ?case by (simp add: entries_def)
next
  case (Cons row rows triple triples)
  obtain d p t where tr: "triple = (d, p, t)" by (cases triple)
  from Cons.hyps(1) have re: "row_entry db row =
     (case get_protocol_number db p of
        Inl e \<Rightarrow> Inl e
      | Inr n \<Rightarrow> Inr ((PyStr d, n), lower t))"
    by (simp add: tr row_entry_is_row)
  have split_ent: "entries db (row # rows) =
      (case row_entry db row of Inr e \<Rightarrow> [e] | Inl _ \<Rightarrow> []) @ entries db rows"
    by (simp add: entries_def)
  show ?case
    unfolding split_ent set_append Cons.IH re tr
    by (cases "get_protocol_number db p") auto
qed

lemma entries_append: "entries db (xs @ ys) = entries db xs @ entries db ys"
  by (simp add: entries_def)

lemma entries_no_key:
  assumes "\<forall>r \<in> set rows. \<forall>v. row_entry db r \<noteq> Inr (k, v)"
  shows "k \<notin> fst ` set (entries db rows)"
  using assms
proof (induction rows)
  case Nil
  show ?case by (simp add: entries_def)
next
  case (Cons r rows)
  from Cons.prems have here: "\<forall>v. row_entry db r \<noteq> Inr (k, v)" by simp
  from Cons have rest: "k \<notin> fst ` set (entries db rows)" by simp
  have ent: "entries db (r # rows) =
      (case row_entry db r of Inr e \<Rightarrow> [e] | Inl _ \<Rightarrow> []) @ entries db rows"
    by (simp add: entries_def)
  show ?case
  proof (cases "row_entry db r")
    case (Inl x)
    with rest show ?thesis by (simp add: ent)
  next
    case (Inr e)
    with here have "fst e \<noteq> k" by (cases e) auto
    with rest Inr show ?thesis by (simp add: ent)
  qed
qed

lemma load_lookup_table_returns:
  assumes "load_lookup_table db (Opened rows fin) = (out, Inr tbl)"
  shows "tbl = set_all (entries db rows) []"
proof -
  obtain out' res where l: "lookup_loop db rows fin [] [] = (out', res)"
    by (cases "lookup_loop db rows fin [] []")
  with assms have "res = Inr tbl"
    by (cases res) (simp_all add: load_lookup_table_def)
  with l lookup_loop_returns show ?thesis by blast
qed

lemma lower_Web: "lower ''Web'' = ''web''"
  by code_simp

lemma lower_http: "lower ''http'' = ''http''"
  by code_simp

lemma row_entry_csv_row3:
  "row_entry db (csv_row3 d p t) =
     (case get_protocol_number db p of
        Inl e \<Rightarrow> Inl e
      | Inr n \<Rightarrow> Inr ((PyStr d, n), lower t))"
  by (rule row_entry_is_row) (simp add: is_row_def csv_row3_def)

lemma set_dict_set: "set (dict_set d k v) \<subseteq> insert (k, v) (set d)"
  by (induction d k v rule: dict_set.induct) auto

lemma set_set_all: "set (set_all es d) \<subseteq> set d \<union> set es"
proof (induction es arbitrary: d)
  case Nil
  show ?case by (simp add: set_all_def)
next
  case (Cons e es)
  obtain k v where e: "e = (k, v)" by (cases e)
  have "set_all (e # es) d = set_all es (dict_set d k v)"
    by (simp add: set_all_def e)
  with Cons.IH [of "dict_set d k v"] set_dict_set [of d k v] show ?case
    by (auto simp: e)
qed

text \<open>
  Claim C5. For every lookup source that is read to its end and whose rows are string
  triples, \<open>load_lookup_table\<close> does not abort: it returns a table, it prints one
  message for each row whose protocol name does not resolve, in order, the keys of the
  table are exactly the keys (dstport, number) of the rows whose protocol name
  resolves, and every entry of the table is the entry of such a row.
\<close>

theorem C5_bad_protocol_rows_skipped:
  assumes "list_all2 is_row rows triples"
  shows "\<exists>tbl. load_lookup_table db (Opened rows None) =
       (map (skip_message db) (filter (\<lambda>(d, p, t). isl (get_protocol_number db p)) triples),
        Inr tbl)
     \<and> fst ` set tbl =
       {(PyStr d, n) | d p t n. (d, p, t) \<in> set triples \<and> get_protocol_number db p = Inr n}
     \<and> set tbl \<subseteq>
       {((PyStr d, n), lower t) | d p t n.
          (d, p, t) \<in> set triples \<and> get_protocol_number db p = Inr n}"
proof -
  let ?tbl = "set_all (entries db rows) []"
  have a: "load_lookup_table db (Opened rows None) =
       (map (skip_message db) (filter (\<lambda>(d, p, t). isl (get_protocol_number db p)) triples),
        Inr ?tbl)"
    by (simp add: load_lookup_table_def lookup_loop_triples [OF assms])
  have "fst ` set ?tbl = fst ` set (entries db rows)"
    by (simp add: keys_set_all)
  also have "\<dots> = {(PyStr d, n) | d p t n.
       (d, p, t) \<in> set triples \<and> get_protocol_number db p = Inr n}"
    unfolding entries_triples [OF assms] by force
  finally have b: "fst ` set ?tbl = {(PyStr d, n) | d p t n.
       (d, p, t) \<in> set triples \<and> get_protocol_number db p = Inr n}" .
  have c: "set ?tbl \<subseteq> {((PyStr d, n), lower t) | d p t n.
          (d, p, t) \<in> set triples \<and> get_protocol_number db p = Inr n}"
    using set_set_all [of "entries db rows" "[]"] by (simp add: entries_triples [OF assms])
  from a b c show ?thesis by blast
qed

theorem C5_bad_protocol_rows_skipped_witness:
  "list_all2 is_row
     [csv_row3 ''80'' ''TCP'' ''http'', csv_row3 ''1'' ''bogus'' ''x'']
     [(''80'', ''TCP'', ''http''), (''1'', ''bogus'', ''x'')]
   \<and> (\<exists>tbl. load_lookup_table spec_protocols
          (Opened [csv_row3 ''80'' ''TCP'' ''http'', csv_row3 ''1'' ''bogus'' ''x''] None) =
       ([''Skipping invalid entry in lookup table: Invalid protocol name: bogus.''], Inr tbl)
     \<and> fst ` set tbl = {(PyStr ''80'', ''6'')}
     \<and> set tbl \<subseteq> {((PyStr ''80'', ''6''), ''http'')})"
proof -
  have h: "list_all2 is_row
     [csv_row3 ''80'' ''TCP'' ''http'', csv_row3 ''1'' ''bogus'' ''x'']
     [(''80'', ''TCP'', ''http''), (''1'', ''bogus'', ''x'')]"
    by (simp add: is_row_def csv_row3_def)
  have k: "{(PyStr d, n) | d p t n.
       (d, p, t) \<in> set [(''80'', ''TCP'', ''http''), (''1'', ''bogus'', ''x'')]
       \<and> get_protocol_number spec_protocols p = Inr n} = {(PyStr ''80'', ''6'')}"
    by (auto simp: tcp_number bogus_number)
  have e: "{((PyStr d, n), lower t) | d p t n.
       (d, p, t) \<in> set [(''80'', ''TCP'', ''http''), (''1'', ''bogus'', ''x'')]
       \<and> get_protocol_number spec_protocols p = Inr n} = {((PyStr ''80'', ''6''), ''http'')}"
    by (auto simp: tcp_number bogus_number lower_http)
  from C5_bad_protocol_rows_skipped [OF h, of spec_protocols] have
    "\<exists>tbl. load_lookup_table spec_protocols
          (Opened [csv_row3 ''80'' ''TCP'' ''http'', csv_row3 ''1'' ''bogus'' ''x''] None) =
       ([''Skipping invalid entry in lookup table: Invalid protocol name: bogus.''], Inr tbl)
     \<and> fst ` set tbl = {(PyStr ''80'', ''6'')}
     \<and> set tbl \<subseteq> {((PyStr ''80'', ''6''), ''http'')}"
    unfolding k e by (simp add: skip_message_def tcp_number bogus_number)
  with h show ?thesis by (rule conjI)
qed

text \<open>
  Claim C6. For every lookup source for which \<open>load_lookup_table\<close> returns a table:
  a row with the destination port \<open>dstport\<close>, a protocol name that resolves to
  \<open>num\<close> and the tag \<open>tag\<close> is stored under the key \<open>(dstport, num)\<close> with
  the tag in lower case, and the table holds that value if no later row produces the
  same key, whatever the earlier rows stored there (the last write wins).
\<close>

theorem C6_last_write_wins:
  assumes ld: "load_lookup_table db (Opened rows fin) = (out, Inr tbl)"
    and rows: "rows = pre @ row # post"
    and d: "row ''dstport'' = Some dstport"
    and p: "row ''protocol'' = Some (PyStr protocol)"
    and n: "get_protocol_number db protocol = Inr num"
    and t: "row ''tag'' = Some (PyStr tag)"
    and later: "\<forall>r \<in> set post. \<forall>v. row_entry db r \<noteq> Inr ((dstport, num), v)"
  shows "map_of tbl (dstport, num) = Some (lower tag)"
proof -
  have e: "row_entry db row = Inr ((dstport, num), lower tag)"
    by (simp add: row_entry_def d p n t)
  have "entries db rows = entries db pre @ ((dstport, num), lower tag) # entries db post"
    by (simp add: rows entries_append) (simp add: entries_def e)
  then have r: "rev (entries db rows) =
      rev (entries db post) @ ((dstport, num), lower tag) # rev (entries db pre)"
    by simp
  have "(dstport, num) \<notin> fst ` set (rev (entries db post))"
    using entries_no_key [OF later] by simp
  then have "map_of (rev (entries db post)) (dstport, num) = None"
    by (simp add: map_of_eq_None_iff)
  then have "map_of (rev (entries db rows)) (dstport, num) = Some (lower tag)"
    by (simp add: r map_add_def)
  with load_lookup_table_returns [OF ld] show ?thesis
    by (simp add: map_of_set_all)
qed

theorem C6_last_write_wins_witness:
  "load_lookup_table spec_protocols
     (Opened [csv_row3 ''80'' ''TCP'' ''http'', csv_row3 ''80'' ''TCP'' ''Web'',
              csv_row3 ''443'' ''bogus'' ''x''] None)
     = ([''Skipping invalid entry in lookup table: Invalid protocol name: bogus.''],
        Inr [((PyStr ''80'', ''6''), ''web'')])
   \<and> map_of [((PyStr ''80'', ''6''), ''web'')] (PyStr ''80'', ''6'') = Some (lower ''Web'')"
proof -
  let ?rows = "[csv_row3 ''80'' ''TCP'' ''http'', csv_row3 ''80'' ''TCP'' ''Web'',
              csv_row3 ''443'' ''bogus'' ''x'']"
  have ld: "load_lookup_table spec_protocols (Opened ?rows None)
     = ([''Skipping invalid entry in lookup table: Invalid protocol name: bogus.''],
        Inr [((PyStr ''80'', ''6''), ''web'')])"
    by (simp add: load_lookup_table_def row_entry_csv_row3 tcp_number bogus_number
        lower_Web lower_http)
  have rows: "?rows = [csv_row3 ''80'' ''TCP'' ''http''] @ csv_row3 ''80'' ''TCP'' ''Web''
      # [csv_row3 ''443'' ''bogus'' ''x'']"
    by simp
  have later: "\<forall>r \<in> set [csv_row3 ''443'' ''bogus'' ''x''].
      \<forall>v. row_entry spec_protocols r \<noteq> Inr ((PyStr ''80'', ''6''), v)"
    by (simp add: row_entry_csv_row3 bogus_number)
  have "map_of [((PyStr ''80'', ''6''), ''web'')] (PyStr ''80'', ''6'') = Some (lower ''Web'')"
    by (rule C6_last_write_wins [OF ld rows _ _ tcp_number _ later]) (simp_all add: csv_row3_def)
  with ld show ?thesis by (rule conjI)
qed

section \<open>Failures of a load\<close>

lemma load_lookup_table_open_fails:
  "load_lookup_table db (OpenFails e)
     = ([], Inl (OSError (''Failed to read the lookup table file: '' @ exn_str e)))"
  by (simp add: load_lookup_table_def)

lemma load_flow_logs_open_fails:
  "load_dstport_protocol_flow_logs (OpenFails e)
     = ([], Inl (OSError (''Failed to read the flow log file: '' @ exn_str e)))"
  by (simp add: load_dstport_protocol_flow_logs_def)

lemma load_flow_logs_read_fails:
  "snd (load_dstport_protocol_flow_logs (Opened lines (Some e)))
     = Inl (OSError (''Failed to read the flow log file: '' @ exn_str e))"
  by (simp add: load_dstport_protocol_flow_logs_def flow_loop_eq)

lemma load_lookup_table_read_fails:
  assumes "list_all2 is_row rows triples"
  shows "snd (load_lookup_table db (Opened rows (Some e)))
     = Inl (OSError (''Failed to read the lookup table file: '' @ exn_str e))"
proof -
  have "snd (lookup_loop db rows (Some e) lookup out) = Inl e" for lookup out
    using assms
  proof (induction rows triples arbitrary: lookup out rule: list_all2_induct)
    case Nil
    show ?case by simp
  next
    case (Cons row rows triple triples)
    obtain d p t where tr: "triple = (d, p, t)" by (cases triple)
    from Cons.hyps(1) have re: "row_entry db row =
       (case get_protocol_number db p of
          Inl e \<Rightarrow> Inl e
        | Inr n \<Rightarrow> Inr ((PyStr d, n), lower t))"
      by (simp add: tr row_entry_is_row)
    from get_protocol_number_cases [of db p] show ?case
      by (auto simp: re Cons.IH)
  qed
  then have "snd (lookup_loop db rows (Some e) [] []) = Inl e" .
  then obtain out where "lookup_loop db rows (Some e) [] [] = (out, Inl e)"
    by (cases "lookup_loop db rows (Some e) [] []") simp
  then show ?thesis
    by (simp add: load_lookup_table_def)
qed

text \<open>
  Claim C9. The claim says that no malformed row of the lookup source aborts the load.
  The lookup source of the two lines \<^verbatim>\<open>80,TCP\<close> and
  \<^verbatim>\<open>443,TCP,https\<close> under the header \<^verbatim>\<open>dstport,protocol,tag\<close> is
  opened and read without failure, and its first row lacks the tag. On it
  \<open>load_lookup_table\<close> prints nothing, loads nothing and raises \<open>IOError\<close>: the
  \<open>AttributeError\<close> of \<open>None.lower()\<close> is no \<open>ValueError\<close>, so the handler that
  skips a row does not take it.
\<close>

theorem C9_short_row_aborts_load:
  "load_lookup_table spec_protocols
     (Opened [short_row, csv_row3 ''443'' ''TCP'' ''https''] None)
   = ([], Inl (OSError (''Failed to read the lookup table file: '' @ quoted ''NoneType''
        @ '' object has no attribute '' @ quoted ''lower'')))"
  by (simp add: load_lookup_table_def row_entry_def short_row_def tcp_number)

section \<open>The scenarios of the repository's unit tests\<close>

text \<open>
  The cases of \<open>unit_test.py\<close>, replayed on the model with the registry of the spec;
  each lemma states the value that the test asserts.
\<close>

lemma test_load_lookup_table:
  "load_lookup_table spec_protocols
     (Opened [csv_row3 ''80'' ''TCP'' ''http'', csv_row3 ''443'' ''TCP'' ''https''] None)
   = ([], Inr [((PyStr ''80'', ''6''), ''http''), ((PyStr ''443'', ''6''), ''https'')])"
proof -
  have "lower ''https'' = ''https''" by code_simp
  then show ?thesis
    by (simp add: load_lookup_table_def row_entry_csv_row3 tcp_number lower_http)
qed

lemma test_load_dstport_protocol_flow_logs:
  "load_dstport_protocol_flow_logs
     (Opened
       [''2 123456789012 eni-0a1b2c3d 10.0.1.201 198.51.100.2 443 49153 6 25 20000 1620140761 1620140821 ACCEPT OK'' @ [CHR 0x0A],
        [CHR 0x0A],
        ''        2 123456789012 eni-9k10l11m 192.168.1.5 51.15.99.115 49321 25 6 20 10000 1620140661 1620140721 ACCEPT OK'' @ [CHR 0x0A]]
       None)
   = ([''Skipping incomplete line: ''], Inr [(''49153'', ''6''), (''25'', ''6'')])"
  by (simp add: load_dstport_protocol_flow_logs_def split_def is_space_def strip_def)

lemma test_map_port_proto_tag:
  "map_port_proto_tag [((''80'', ''6''), ''http''), ((''443'', ''6''), ''https'')]
     [(''80'', ''6''), (''443'', ''6''), (''8080'', ''6'')]
   = [(''http'', 1), (''https'', 1), (''untagged'', 1)]"
  by (simp add: map_port_proto_tag_def tag_step_def tag_of_def count_incr_def)

lemma test_get_protocol_name:
  "get_protocol_name spec_socket_vars 6 = ''TCP''"
  "get_protocol_name spec_socket_vars 999 = ''Unknown Protocol (999)''"
  by (simp_all add: get_protocol_name_def spec_socket_vars_def prefix_def str_int_999)

lemma test_get_port_protocol_counts:
  "get_port_protocol_counts spec_socket_vars [(''80'', ''6''), (''443'', ''6''), (''80'', ''6'')]
   = Inr [((''80'', ''TCP''), 2), ((''443'', ''TCP''), 1)]"
proof -
  have "py_int ''6'' = Some 6"
    by (simp add: py_int_def strip_def is_space_def int_literal_def is_digit_def
        digit_val_def)
  then show ?thesis
    by (simp add: get_port_protocol_counts_def test_get_protocol_name count_incr_def Let_def
        numeral_2_eq_2)
qed

end
